theory Spec2Isabelle
  imports Complex_Main
begin

section \<open>Drop the Spot: the map client and the rules of its API\<close>

text \<open>
  The repository holds the React client (\<^verbatim>\<open>frontend/src/App.js\<close> and an earlier
  version of it that keeps the authentication state in an \<^verbatim>\<open>AuthProvider\<close>).
  The client is modelled by explicit state passing: one record holds the React state
  of the component together with the ambient state its handlers mutate
  (\<^verbatim>\<open>localStorage\<close>, the default headers of the shared axios instance, the
  Leaflet references) and a log of everything it sends.

  An \<^verbatim>\<open>async\<close> handler is modelled by two functions: \<open>f_request\<close> is the
  part that runs up to the \<^verbatim>\<open>await\<close>, \<open>f_settle\<close> the part that runs when the
  promise settles, with the outcome of the request as its argument.
\<close>

subsection \<open>Data exchanged with the server\<close>

type_synonym coordinate = rat

record account =
  account_id :: string
  username :: string

record spot_json =
  spot_id :: string
  title :: string
  description :: string
  average_rating :: rat

record user_hit =
  hit_id :: string
  hit_username :: string
  is_friend :: bool

record auth_form =
  af_username :: string
  af_email :: string
  af_password :: string

record new_spot =
  ns_title :: string
  ns_description :: string
  ns_photo :: string
  ns_latitude :: coordinate
  ns_longitude :: coordinate

record auth_response =
  access_token :: string
  auth_user :: account

text \<open>Request bodies, and requests. A URL is written without the prefix \<^verbatim>\<open>${API}\<close>.\<close>

datatype body =
    LoginBody string string
  | RegisterBody auth_form
  | RateBody int

datatype http_request =
    GET string
  | POST string body

text \<open>
  A settled promise: the response data, or a rejection with the status and the
  \<^verbatim>\<open>detail\<close> of the error response where there is one.
\<close>

datatype 'a response =
    Resolved 'a
  | Rejected "nat option" "string option"

subsection \<open>The state of \<^verbatim>\<open>App\<close> in \<^verbatim>\<open>frontend/src/App.js\<close>\<close>

record client =
  user :: "account option"
  token :: "string option"
  spots :: "spot_json list"
  showAddForm :: bool
  selectedSpot :: "spot_json option"
  showAuthModal :: bool
  authMode :: string
  searchResults :: "user_hit list"
  searchQuery :: string
  mapFilter :: string
  newSpot :: new_spot
  currentLocation :: "(coordinate \<times> coordinate) option"
  authForm :: auth_form
  loading :: bool
  mapInstance :: bool
  addSpotMarker :: "(coordinate \<times> coordinate) option"
  localStorage_token :: "string option"
  auth_header :: "string option"
  http_log :: "(http_request \<times> string option) list"
  pending :: "http_request list"
  alerts :: "string list"

text \<open>
  \<open>mapInstance\<close> says that \<^verbatim>\<open>mapInstanceRef.current\<close> is set, \<open>addSpotMarker\<close> is
  the position of the marker in \<^verbatim>\<open>addSpotMarkerRef.current\<close>, \<open>auth_header\<close> is
  \<^verbatim>\<open>axios.defaults.headers.common['Authorization']\<close>. Every request is logged
  with the header the shared axios instance holds when the request is made;
  \<open>pending\<close> lists the requests whose promise has not settled.
\<close>

definition issue :: "http_request \<Rightarrow> client \<Rightarrow> client" where
  "issue q s = s\<lparr>http_log := http_log s @ [(q, auth_header s)], pending := pending s @ [q]\<rparr>"

definition alert :: "string \<Rightarrow> client \<Rightarrow> client" where
  "alert m s = s\<lparr>alerts := alerts s @ [m]\<rparr>"

definition empty_auth_form :: auth_form where
  "empty_auth_form = \<lparr>af_username = [], af_email = [], af_password = []\<rparr>"

text \<open>\<^verbatim>\<open>error.response?.data?.detail || fallback\<close>: an empty string is falsy.\<close>

definition detail_or :: "string option \<Rightarrow> string \<Rightarrow> string" where
  "detail_or d fallback = (case d of None \<Rightarrow> fallback | Some m \<Rightarrow> if m = [] then fallback else m)"

subsection \<open>Handlers of \<^verbatim>\<open>frontend/src/App.js\<close>\<close>

definition fetchUserProfile_request :: "client \<Rightarrow> client" where
  "fetchUserProfile_request s = issue (GET ''/auth/me'') s"

definition fetchUserProfile_settle :: "account response \<Rightarrow> client \<Rightarrow> client" where
  "fetchUserProfile_settle r s =
     (case r of
        Resolved d \<Rightarrow> s\<lparr>user := Some d\<rparr>
      | Rejected st det \<Rightarrow>
          s\<lparr>localStorage_token := None, token := None, user := None, auth_header := None\<rparr>)"

definition loadSpots_request :: "client \<Rightarrow> client" where
  "loadSpots_request s = issue (GET (''/spots?filter_type='' @ mapFilter s)) s"

definition loadSpots_settle :: "spot_json list response \<Rightarrow> client \<Rightarrow> client" where
  "loadSpots_settle r s =
     (case r of
        Resolved d \<Rightarrow> s\<lparr>spots := d\<rparr>
      | Rejected st det \<Rightarrow> s\<lparr>spots := []\<rparr>)"

definition handleLogin_request :: "client \<Rightarrow> client" where
  "handleLogin_request s =
     issue (POST ''/auth/login'' (LoginBody (af_username (authForm s)) (af_password (authForm s))))
       (s\<lparr>loading := True\<rparr>)"

definition handleLogin_settle :: "auth_response response \<Rightarrow> client \<Rightarrow> client" where
  "handleLogin_settle r s =
     (case r of
        Resolved d \<Rightarrow>
          alert (''Welcome back, '' @ username (auth_user d) @ ''!'')
            (s\<lparr>localStorage_token := Some (access_token d),
               token := Some (access_token d),
               user := Some (auth_user d),
               auth_header := Some (''Bearer '' @ access_token d),
               showAuthModal := False,
               authForm := empty_auth_form\<rparr>)
      | Rejected st det \<Rightarrow> alert (detail_or det ''Login failed'') s)
     \<lparr>loading := False\<rparr>"

definition handleRegister_request :: "client \<Rightarrow> client" where
  "handleRegister_request s =
     issue (POST ''/auth/register'' (RegisterBody (authForm s))) (s\<lparr>loading := True\<rparr>)"

definition handleRegister_settle :: "auth_response response \<Rightarrow> client \<Rightarrow> client" where
  "handleRegister_settle r s =
     (case r of
        Resolved d \<Rightarrow>
          alert (''Welcome to Drop the Spot, '' @ username (auth_user d) @ ''!'')
            (s\<lparr>localStorage_token := Some (access_token d),
               token := Some (access_token d),
               user := Some (auth_user d),
               auth_header := Some (''Bearer '' @ access_token d),
               showAuthModal := False,
               authForm := empty_auth_form\<rparr>)
      | Rejected st det \<Rightarrow> alert (detail_or det ''Registration failed'') s)
     \<lparr>loading := False\<rparr>"

definition handleLogout :: "client \<Rightarrow> client" where
  "handleLogout s =
     alert ''Logged out successfully''
       (s\<lparr>localStorage_token := None, token := None, user := None, auth_header := None,
          mapFilter := ''global''\<rparr>)"

definition handleAddSpotClick :: "client \<Rightarrow> client" where
  "handleAddSpotClick s =
     (if user s = None then s\<lparr>showAuthModal := True\<rparr>
      else
        let s1 = s\<lparr>showAddForm := True, selectedSpot := None\<rparr> in
        if mapInstance s1 \<and> addSpotMarker s1 = None then
          let (lat, lng) = (case currentLocation s1 of
                              Some (la, lo) \<Rightarrow> (la, lo)
                            | None \<Rightarrow> (523676 / 10000, 49041 / 10000))
          in s1\<lparr>addSpotMarker := Some (lat, lng),
                newSpot := (newSpot s1)\<lparr>ns_latitude := lat, ns_longitude := lng\<rparr>\<rparr>
        else s1)"

definition handleRateSpot_request :: "string \<Rightarrow> int \<Rightarrow> client \<Rightarrow> client" where
  "handleRateSpot_request spotId rating s =
     (if user s = None then s\<lparr>showAuthModal := True\<rparr>
      else issue (POST (''/spots/'' @ spotId @ ''/rate'') (RateBody rating)) s)"

definition handleRateSpot_settle :: "unit response \<Rightarrow> client \<Rightarrow> client" where
  "handleRateSpot_settle r s =
     (case r of
        Resolved d \<Rightarrow> (loadSpots_request (alert ''Rating submitted!'' s))\<lparr>selectedSpot := None\<rparr>
      | Rejected st det \<Rightarrow> alert ''Error submitting rating'' s)"

definition searchUsers_request :: "string \<Rightarrow> client \<Rightarrow> client" where
  "searchUsers_request query s =
     (if query = [] \<or> length query < 2 then s\<lparr>searchResults := []\<rparr>
      else issue (GET (''/users/search?q='' @ query)) s)"

definition searchUsers_settle :: "user_hit list response \<Rightarrow> client \<Rightarrow> client" where
  "searchUsers_settle r s =
     (case r of
        Resolved d \<Rightarrow> s\<lparr>searchResults := d\<rparr>
      | Rejected st det \<Rightarrow> s)"

text \<open>
  The star buttons of the spot details: \<^verbatim>\<open>[1, 2, 3, 4, 5].map(star => ...)\<close>, each
  with \<^verbatim>\<open>onClick={() => handleRateSpot(selectedSpot.id, star)}\<close>. They are rendered
  while a spot is selected and a user is logged in; \<open>None\<close> says that there is no such
  button.
\<close>

definition stars :: "int list" where
  "stars = [1, 2, 3, 4, 5]"

definition star_click :: "nat \<Rightarrow> client \<Rightarrow> client option" where
  "star_click i s =
     (case selectedSpot s of
        None \<Rightarrow> None
      | Some sp \<Rightarrow>
          if user s \<noteq> None \<and> i < length stars
          then Some (handleRateSpot_request (spot_id sp) (stars ! i) s)
          else None)"

text \<open>The footer line that names the current filter; it is rendered while a user is logged in.\<close>

definition footer_label :: "string \<Rightarrow> string" where
  "footer_label f =
     (if f = ''global'' then ''All public spots''
      else if f = ''own'' then ''Your spots''
      else ''Your + friends' spots'')"

subsection \<open>Effects and events of \<^verbatim>\<open>frontend/src/App.js\<close>\<close>

text \<open>
  The component's effects, in the order of their declaration. The first one runs when
  \<open>token\<close> has changed, the last one when \<open>mapFilter\<close> or \<open>user\<close> has changed; both
  run after the handler that changed the state has returned, and a dependency counts
  as changed when its value differs. A string is truthy when it is not empty. The
  effect that redraws the markers and the geolocation callbacks send nothing and are
  left out.
\<close>

definition token_effect :: "client \<Rightarrow> client" where
  "token_effect s =
     (case token s of
        None \<Rightarrow> s
      | Some t \<Rightarrow>
          if t = [] then s
          else fetchUserProfile_request (s\<lparr>auth_header := Some (''Bearer '' @ t)\<rparr>))"

definition spots_effect :: "client \<Rightarrow> client" where
  "spots_effect s = (if mapInstance s then loadSpots_request s else s)"

definition effects :: "client \<Rightarrow> client \<Rightarrow> client" where
  "effects before after =
     (let s1 = (if token after \<noteq> token before then token_effect after else after)
      in if mapFilter after \<noteq> mapFilter before \<or> user after \<noteq> user before
         then spots_effect s1 else s1)"

text \<open>
  The first render: \<open>stored\<close> is what \<^verbatim>\<open>localStorage.getItem('token')\<close> returns,
  \<open>leaflet_ok\<close> says that the map could be created. Every effect runs once; the
  effect that creates the map also loads the spots.
\<close>

definition initial :: "string option \<Rightarrow> client" where
  "initial stored =
     \<lparr>user = None, token = stored, spots = [], showAddForm = False, selectedSpot = None,
      showAuthModal = False, authMode = ''login'', searchResults = [], searchQuery = [],
      mapFilter = ''global'',
      newSpot = \<lparr>ns_title = [], ns_description = [], ns_photo = [],
                 ns_latitude = 523676 / 10000, ns_longitude = 49041 / 10000\<rparr>,
      currentLocation = None, authForm = empty_auth_form, loading = False,
      mapInstance = False, addSpotMarker = None, localStorage_token = stored,
      auth_header = None, http_log = [], pending = [], alerts = []\<rparr>"

definition map_effect :: "bool \<Rightarrow> client \<Rightarrow> client" where
  "map_effect leaflet_ok s =
     (if leaflet_ok \<and> \<not> mapInstance s then loadSpots_request (s\<lparr>mapInstance := True\<rparr>) else s)"

definition mount :: "bool \<Rightarrow> string option \<Rightarrow> client" where
  "mount leaflet_ok stored = spots_effect (map_effect leaflet_ok (token_effect (initial stored)))"

text \<open>
  What can happen to the mounted component: the user acts on an element that is
  rendered in the current state, or a pending request settles. \<open>step\<close> returns
  \<open>None\<close> for an event that is impossible in the state: a button that is not
  rendered, a response to a request that is not pending.
\<close>

datatype event =
    OpenAuthModal
  | SwitchAuthMode
  | EditAuthForm auth_form
  | SubmitAuthForm
  | LoginResponse "auth_response response"
  | RegisterResponse "auth_response response"
  | ClickFilter string
  | ClickLogout
  | ClickAddSpot
  | ProfileResponse "account response"
  | SpotsResponse string "spot_json list response"

definition is_login :: "http_request \<Rightarrow> bool" where
  "is_login q = (case q of POST u b \<Rightarrow> u = ''/auth/login'' | GET u \<Rightarrow> False)"

definition is_register :: "http_request \<Rightarrow> bool" where
  "is_register q = (case q of POST u b \<Rightarrow> u = ''/auth/register'' | GET u \<Rightarrow> False)"

definition settled :: "(http_request \<Rightarrow> bool) \<Rightarrow> client \<Rightarrow> client option" where
  "settled P s =
     (case find P (pending s) of
        None \<Rightarrow> None
      | Some q \<Rightarrow> Some (s\<lparr>pending := remove1 q (pending s)\<rparr>))"

definition on_event :: "event \<Rightarrow> client \<Rightarrow> client option" where
  "on_event e s =
     (case e of
        OpenAuthModal \<Rightarrow> if user s = None then Some (s\<lparr>showAuthModal := True\<rparr>) else None
      | SwitchAuthMode \<Rightarrow>
          if showAuthModal s
          then Some (s\<lparr>authMode := (if authMode s = ''login'' then ''register'' else ''login'')\<rparr>)
          else None
      | EditAuthForm f \<Rightarrow> if showAuthModal s then Some (s\<lparr>authForm := f\<rparr>) else None
      | SubmitAuthForm \<Rightarrow>
          if showAuthModal s \<and> \<not> loading s
          then Some (if authMode s = ''login'' then handleLogin_request s
                     else handleRegister_request s)
          else None
      | LoginResponse r \<Rightarrow> map_option (handleLogin_settle r) (settled is_login s)
      | RegisterResponse r \<Rightarrow> map_option (handleRegister_settle r) (settled is_register s)
      | ClickFilter f \<Rightarrow>
          if user s \<noteq> None \<and> f \<in> set [''global'', ''own'', ''friends'']
          then Some (s\<lparr>mapFilter := f\<rparr>) else None
      | ClickLogout \<Rightarrow> if user s \<noteq> None then Some (handleLogout s) else None
      | ClickAddSpot \<Rightarrow> if user s \<noteq> None then Some (handleAddSpotClick s) else None
      | ProfileResponse r \<Rightarrow>
          map_option (fetchUserProfile_settle r) (settled (\<lambda>q. q = GET ''/auth/me'') s)
      | SpotsResponse f r \<Rightarrow>
          map_option (loadSpots_settle r) (settled (\<lambda>q. q = GET (''/spots?filter_type='' @ f)) s))"

definition step :: "event \<Rightarrow> client \<Rightarrow> client option" where
  "step e s = map_option (effects s) (on_event e s)"

fun run :: "event list \<Rightarrow> client \<Rightarrow> client option" where
  "run [] s = Some s"
| "run (e # es) s = (case step e s of None \<Rightarrow> None | Some s' \<Rightarrow> run es s')"

subsection \<open>The earlier client: \<^verbatim>\<open>AuthProvider\<close> and \<^verbatim>\<open>StarRating\<close>\<close>

text \<open>
  In the earlier version of the client the authentication state lives in a context
  provider, and messages are shown as toasts.
\<close>

record auth_provider =
  p_user :: "account option"
  p_token :: "string option"
  p_loading :: bool
  p_localStorage_token :: "string option"
  p_auth_header :: "string option"
  p_http_log :: "(http_request \<times> string option) list"
  p_toasts :: "string list"

definition p_issue :: "http_request \<Rightarrow> auth_provider \<Rightarrow> auth_provider" where
  "p_issue q s = s\<lparr>p_http_log := p_http_log s @ [(q, p_auth_header s)]\<rparr>"

definition toast :: "string \<Rightarrow> auth_provider \<Rightarrow> auth_provider" where
  "toast m s = s\<lparr>p_toasts := p_toasts s @ [m]\<rparr>"

definition logout :: "auth_provider \<Rightarrow> auth_provider" where
  "logout s =
     toast ''Logged out successfully''
       (s\<lparr>p_localStorage_token := None, p_token := None, p_user := None,
          p_auth_header := None\<rparr>)"

definition p_fetchUserProfile_request :: "auth_provider \<Rightarrow> auth_provider" where
  "p_fetchUserProfile_request s = p_issue (GET ''/auth/me'') s"

definition p_fetchUserProfile_settle :: "account response \<Rightarrow> auth_provider \<Rightarrow> auth_provider" where
  "p_fetchUserProfile_settle r s =
     (case r of
        Resolved d \<Rightarrow> s\<lparr>p_user := Some d\<rparr>
      | Rejected st det \<Rightarrow> logout s)
     \<lparr>p_loading := False\<rparr>"

definition login_request :: "string \<Rightarrow> string \<Rightarrow> auth_provider \<Rightarrow> auth_provider" where
  "login_request name password s = p_issue (POST ''/auth/login'' (LoginBody name password)) s"

text \<open>\<open>login\<close> and \<open>register\<close> return whether they succeeded.\<close>

definition login_settle :: "auth_response response \<Rightarrow> auth_provider \<Rightarrow> auth_provider \<times> bool" where
  "login_settle r s =
     (case r of
        Resolved d \<Rightarrow>
          (toast (''Welcome back, '' @ username (auth_user d) @ ''!'')
             (s\<lparr>p_localStorage_token := Some (access_token d),
                p_token := Some (access_token d),
                p_user := Some (auth_user d),
                p_auth_header := Some (''Bearer '' @ access_token d)\<rparr>), True)
      | Rejected st det \<Rightarrow> (toast (detail_or det ''Login failed'') s, False))"

definition register_request :: "auth_form \<Rightarrow> auth_provider \<Rightarrow> auth_provider" where
  "register_request f s = p_issue (POST ''/auth/register'' (RegisterBody f)) s"

definition register_settle :: "auth_response response \<Rightarrow> auth_provider \<Rightarrow> auth_provider \<times> bool" where
  "register_settle r s =
     (case r of
        Resolved d \<Rightarrow>
          (toast (''Welcome to Drop the Spot, '' @ username (auth_user d) @ ''!'')
             (s\<lparr>p_localStorage_token := Some (access_token d),
                p_token := Some (access_token d),
                p_user := Some (auth_user d),
                p_auth_header := Some (''Bearer '' @ access_token d)\<rparr>), True)
      | Rejected st det \<Rightarrow> (toast (detail_or det ''Registration failed'') s, False))"

text \<open>
  \<^verbatim>\<open>StarRating\<close> renders \<^verbatim>\<open>[...Array(5)].map((_, index) => ...)\<close> with
  \<^verbatim>\<open>starValue = index + 1\<close>; a click calls
  \<^verbatim>\<open>!readOnly && onRate && onRate(starValue)\<close>. \<open>StarRating_click\<close> is the value
  handed to \<^verbatim>\<open>onRate\<close>, if the button exists and the call is made; the component
  \<^verbatim>\<open>App\<close> passes \<^verbatim>\<open>(rating) => handleRateSpot(selectedSpot.id, rating)\<close>.
\<close>

definition StarRating_values :: "int list" where
  "StarRating_values = map (\<lambda>index. int index + 1) [0..<5]"

definition StarRating_click :: "bool \<Rightarrow> bool \<Rightarrow> nat \<Rightarrow> int option" where
  "StarRating_click readOnly has_onRate index =
     (if index < length StarRating_values \<and> \<not> readOnly \<and> has_onRate
      then Some (StarRating_values ! index) else None)"

section \<open>The rules of the API\<close>

text \<open>
  The client talks to a server whose code is not among the sources of the repository.
  The three rule sets of the server that the client relies on (friend requests, rating
  aggregation, spot visibility) are modelled here from their specification.
\<close>

datatype api_error =
    InvalidTarget
  | AlreadyFriends
  | DuplicateRequest
  | NotFound
  | Forbidden
  | InvalidState
  | InvalidValue
  | Unauthorized

subsection \<open>Friend requests\<close>

datatype request_status = Pending | Accepted

record friend_request =
  request_id :: nat
  from_user_id :: nat
  to_user_id :: nat
  status :: request_status

text \<open>
  Modelled from the spec: the identity store and the friend requests of the server,
  which is missing from the sources. \<open>friends_of st u\<close> is the field
  \<^verbatim>\<open>friend_ids\<close> of the user with id \<open>u\<close>.
\<close>

record friend_store =
  friends_of :: "nat \<Rightarrow> nat set"
  requests :: "friend_request list"
  next_request_id :: nat

definition between :: "friend_request \<Rightarrow> nat \<Rightarrow> nat \<Rightarrow> bool" where
  "between r a b =
     (from_user_id r = a \<and> to_user_id r = b \<or> from_user_id r = b \<and> to_user_id r = a)"

definition pending_between :: "friend_request list \<Rightarrow> nat \<Rightarrow> nat \<Rightarrow> bool" where
  "pending_between rs a b = list_ex (\<lambda>r. status r = Pending \<and> between r a b) rs"

text \<open>
  Modelled from the spec: \<^verbatim>\<open>send_request(from, to)\<close> of the server, missing from
  the sources. It fails with \<open>InvalidTarget\<close> if both are the same user, with
  \<open>AlreadyFriends\<close> if \<open>to\<close> is a friend of \<open>from\<close>, with \<open>DuplicateRequest\<close> if a
  pending request exists between the two in either direction; otherwise it creates a
  pending request and returns its id.
\<close>

definition send_request :: "nat \<Rightarrow> nat \<Rightarrow> friend_store \<Rightarrow> api_error + (friend_store \<times> nat)" where
  "send_request a b st =
     (if a = b then Inl InvalidTarget
      else if b \<in> friends_of st a then Inl AlreadyFriends
      else if pending_between (requests st) a b then Inl DuplicateRequest
      else Inr (st\<lparr>requests := requests st @
                      [\<lparr>request_id = next_request_id st, from_user_id = a, to_user_id = b,
                        status = Pending\<rparr>],
                   next_request_id := Suc (next_request_id st)\<rparr>,
                next_request_id st))"

text \<open>
  Modelled from the spec: \<^verbatim>\<open>accept_request(request_id, acting_user)\<close> of the
  server, missing from the sources. It fails with \<open>NotFound\<close> if there is no such
  request, with \<open>Forbidden\<close> if the acting user is not the addressee, with
  \<open>InvalidState\<close> if the request is not pending; on success it adds each user to the
  other's friends, deletes the request and returns the pair of new friends.
\<close>

definition accept_request ::
  "nat \<Rightarrow> nat \<Rightarrow> friend_store \<Rightarrow> api_error + (friend_store \<times> nat \<times> nat)" where
  "accept_request rid acting st =
     (case find (\<lambda>r. request_id r = rid) (requests st) of
        None \<Rightarrow> Inl NotFound
      | Some r \<Rightarrow>
          if acting \<noteq> to_user_id r then Inl Forbidden
          else if status r \<noteq> Pending then Inl InvalidState
          else
            let a = from_user_id r; b = to_user_id r in
            Inr (st\<lparr>friends_of := (friends_of st)
                       (a := insert b (friends_of st a), b := insert a (friends_of st b)),
                    requests := filter (\<lambda>q. request_id q \<noteq> rid) (requests st)\<rparr>,
                 a, b))"

text \<open>
  Modelled from the spec: the states the server can be in. It starts with no friends
  and no requests, and changes by requests that are sent and requests that are accepted
  (the two operations of the specification that write).
\<close>

definition no_friends :: friend_store where
  "no_friends = \<lparr>friends_of = (\<lambda>u. {}), requests = [], next_request_id = 0\<rparr>"

inductive reachable :: "friend_store \<Rightarrow> bool" where
  start: "reachable no_friends"
| sent: "reachable st \<Longrightarrow> send_request a b st = Inr (st', rid) \<Longrightarrow> reachable st'"
| accepted: "reachable st \<Longrightarrow> accept_request rid u st = Inr (st', p) \<Longrightarrow> reachable st'"

text \<open>The invariants of the data model, as the specification states them.\<close>

definition friends_inv :: "friend_store \<Rightarrow> bool" where
  "friends_inv st \<longleftrightarrow>
     (\<forall>a b. b \<in> friends_of st a \<longleftrightarrow> a \<in> friends_of st b) \<and>
     (\<forall>a. a \<notin> friends_of st a) \<and>
     (\<forall>r \<in> set (requests st).
        status r = Pending \<and> from_user_id r \<noteq> to_user_id r \<and>
        to_user_id r \<notin> friends_of st (from_user_id r)) \<and>
     distinct (map (\<lambda>r. {from_user_id r, to_user_id r}) (requests st))"

subsection \<open>Rating aggregation\<close>

text \<open>
  Modelled from the spec: the spots and ratings of the server's store, missing from
  the sources. Of a spot, only the fields the rules read are kept.
\<close>

record spot =
  sid :: nat
  owner_id :: "nat option"
  rating_sum :: int
  rating_count :: nat

record rating =
  rating_spot_id :: nat
  rating_user_id :: nat
  rating_value :: int

record spot_store =
  store_spots :: "spot list"
  store_ratings :: "rating list"

definition average :: "spot \<Rightarrow> rat" where
  "average sp =
     (if rating_count sp > 0 then of_int (rating_sum sp) / of_nat (rating_count sp) else 0)"

definition rating_of :: "nat \<Rightarrow> nat \<Rightarrow> rating \<Rightarrow> bool" where
  "rating_of i u r \<longleftrightarrow> rating_spot_id r = i \<and> rating_user_id r = u"

definition revalue :: "nat \<Rightarrow> nat \<Rightarrow> int \<Rightarrow> rating \<Rightarrow> rating" where
  "revalue i u v r = (if rating_of i u r then r\<lparr>rating_value := v\<rparr> else r)"

definition update_spot :: "nat \<Rightarrow> (spot \<Rightarrow> spot) \<Rightarrow> spot list \<Rightarrow> spot list" where
  "update_spot i f sps = map (\<lambda>sp. if sid sp = i then f sp else sp) sps"

text \<open>
  Modelled from the spec: \<^verbatim>\<open>submit_rating(spot_id, user_id, value)\<close> of the server,
  missing from the sources. It fails with \<open>NotFound\<close> if the spot is absent, with
  \<open>InvalidValue\<close> if the value is not one of 1 to 5, with \<open>Unauthorized\<close> if the caller
  is not authenticated. A prior rating of the user on the spot is replaced
  (\<^verbatim>\<open>rating_sum += value - old_value\<close>), otherwise a rating is inserted
  (\<^verbatim>\<open>rating_sum += value; rating_count += 1\<close>); the recomputed average is returned.
\<close>

definition submit_rating ::
  "nat \<Rightarrow> nat option \<Rightarrow> int \<Rightarrow> spot_store \<Rightarrow> api_error + (spot_store \<times> rat)" where
  "submit_rating i caller v st =
     (case find (\<lambda>sp. sid sp = i) (store_spots st) of
        None \<Rightarrow> Inl NotFound
      | Some sp \<Rightarrow>
          if \<not> (1 \<le> v \<and> v \<le> 5) then Inl InvalidValue
          else
            (case caller of
               None \<Rightarrow> Inl Unauthorized
             | Some u \<Rightarrow>
                 (case find (rating_of i u) (store_ratings st) of
                    Some old \<Rightarrow>
                      let f = (\<lambda>x. x\<lparr>rating_sum := rating_sum x + (v - rating_value old)\<rparr>) in
                      Inr (st\<lparr>store_spots := update_spot i f (store_spots st),
                              store_ratings := map (revalue i u v) (store_ratings st)\<rparr>,
                           average (f sp))
                  | None \<Rightarrow>
                      let f = (\<lambda>x. x\<lparr>rating_sum := rating_sum x + v,
                                     rating_count := rating_count x + 1\<rparr>) in
                      Inr (st\<lparr>store_spots := update_spot i f (store_spots st),
                              store_ratings := store_ratings st @
                                [\<lparr>rating_spot_id = i, rating_user_id = u, rating_value = v\<rparr>]\<rparr>,
                           average (f sp)))))"

text \<open>
  The store is consistent when spot ids are unique, no user has two ratings on a spot,
  and the aggregate of every spot is the sum and the number of the ratings on it.
\<close>

definition ratings_on :: "nat \<Rightarrow> rating list \<Rightarrow> rating list" where
  "ratings_on i rs = filter (\<lambda>r. rating_spot_id r = i) rs"

definition store_inv :: "spot_store \<Rightarrow> bool" where
  "store_inv st \<longleftrightarrow>
     distinct (map sid (store_spots st)) \<and>
     distinct (map (\<lambda>r. (rating_spot_id r, rating_user_id r)) (store_ratings st)) \<and>
     (\<forall>sp \<in> set (store_spots st).
        rating_count sp = length (ratings_on (sid sp) (store_ratings st)) \<and>
        rating_sum sp = sum_list (map rating_value (ratings_on (sid sp) (store_ratings st))))"

subsection \<open>Spot visibility\<close>

record user_rec =
  user_id :: nat
  friend_ids :: "nat set"

datatype filter_mode = Global | Own | Friends

text \<open>
  Modelled from the spec: the visibility filter of the server, missing from the
  sources. \<open>Global\<close> returns every spot, with or without a requesting user; \<open>Own\<close> and
  \<open>Friends\<close> fail with \<open>Unauthorized\<close> without one, and return the spots the user owns,
  or the spots owned by one of the user's friends.
\<close>

definition get_spots :: "user_rec option \<Rightarrow> filter_mode \<Rightarrow> spot list \<Rightarrow> api_error + spot list" where
  "get_spots requesting_user mode sps =
     (case mode of
        Global \<Rightarrow> Inr sps
      | Own \<Rightarrow>
          (case requesting_user of
             None \<Rightarrow> Inl Unauthorized
           | Some u \<Rightarrow> Inr (filter (\<lambda>sp. owner_id sp = Some (user_id u)) sps))
      | Friends \<Rightarrow>
          (case requesting_user of
             None \<Rightarrow> Inl Unauthorized
           | Some u \<Rightarrow>
               Inr (filter (\<lambda>sp. case owner_id sp of
                                   None \<Rightarrow> False
                                 | Some w \<Rightarrow> w \<in> friend_ids u) sps)))"

section \<open>Sample states\<close>

definition alice :: account where
  "alice = \<lparr>account_id = ''u1'', username = ''alice''\<rparr>"

definition park :: spot_json where
  "park = \<lparr>spot_id = ''s1'', title = ''Park'', description = ''A bench'', average_rating = 0\<rparr>"

text \<open>A client in which alice is logged in and looks at the details of a spot.\<close>

definition browsing :: client where
  "browsing = (initial None)\<lparr>user := Some alice, token := Some ''tok'',
     selectedSpot := Some park, mapInstance := True, localStorage_token := Some ''tok'',
     auth_header := Some ''Bearer tok''\<rparr>"

text \<open>
  The user opens the login form, logs in as alice, selects the filter of her own spots
  while the profile request that follows the login is under way, and that request
  fails.
\<close>

definition forced_logout :: "event list" where
  "forced_logout =
     [OpenAuthModal,
      EditAuthForm \<lparr>af_username = ''alice'', af_email = [], af_password = ''secret''\<rparr>,
      SubmitAuthForm,
      LoginResponse (Resolved \<lparr>access_token = ''tok'', auth_user = alice\<rparr>),
      ClickFilter ''own'',
      ProfileResponse (Rejected (Some 401) None)]"

text \<open>User 1 has asked user 2 for friendship; user 2 has accepted.\<close>

definition one_request :: friend_store where
  "one_request =
     \<lparr>friends_of = (\<lambda>u. {}),
      requests = [\<lparr>request_id = 0, from_user_id = 1, to_user_id = 2, status = Pending\<rparr>],
      next_request_id = 1\<rparr>"

definition one_friendship :: friend_store where
  "one_friendship =
     \<lparr>friends_of = (\<lambda>u. {})(1 := {2}, 2 := {1}), requests = [], next_request_id = 1\<rparr>"

text \<open>Spot 1 with the rating 4 of user 7, and the same after user 7 has rated it 2.\<close>

definition rated_once :: spot_store where
  "rated_once =
     \<lparr>store_spots = [\<lparr>sid = 1, owner_id = Some 3, rating_sum = 4, rating_count = 1\<rparr>],
      store_ratings = [\<lparr>rating_spot_id = 1, rating_user_id = 7, rating_value = 4\<rparr>]\<rparr>"

definition rated_again :: spot_store where
  "rated_again =
     \<lparr>store_spots = [\<lparr>sid = 1, owner_id = Some 3, rating_sum = 2, rating_count = 1\<rparr>],
      store_ratings = [\<lparr>rating_spot_id = 1, rating_user_id = 7, rating_value = 2\<rparr>]\<rparr>"

text \<open>Spots of the users 1, 2 and 3 and one without an owner; user 1 has the friend 2.\<close>

definition four_spots :: "spot list" where
  "four_spots =
     [\<lparr>sid = 10, owner_id = Some 1, rating_sum = 0, rating_count = 0\<rparr>,
      \<lparr>sid = 11, owner_id = Some 2, rating_sum = 0, rating_count = 0\<rparr>,
      \<lparr>sid = 12, owner_id = Some 3, rating_sum = 0, rating_count = 0\<rparr>,
      \<lparr>sid = 13, owner_id = None, rating_sum = 0, rating_count = 0\<rparr>]"

definition user_one :: user_rec where
  "user_one = \<lparr>user_id = 1, friend_ids = {2}\<rparr>"

section \<open>Friend requests: symmetry after acceptance\<close>

lemma between_key: "between r a b \<longleftrightarrow> {from_user_id r, to_user_id r} = {a, b}"
  by (auto simp: between_def doubleton_eq_iff)

lemma friends_inv_sym: "friends_inv st \<Longrightarrow> y \<in> friends_of st x \<longleftrightarrow> x \<in> friends_of st y"
  unfolding friends_inv_def by blast

lemma friends_inv_irrefl: "friends_inv st \<Longrightarrow> x \<notin> friends_of st x"
  unfolding friends_inv_def by blast

lemma friends_inv_request:
  "friends_inv st \<Longrightarrow> q \<in> set (requests st) \<Longrightarrow>
   status q = Pending \<and> from_user_id q \<noteq> to_user_id q \<and>
   to_user_id q \<notin> friends_of st (from_user_id q)"
  unfolding friends_inv_def by blast

lemma friends_inv_distinct:
  "friends_inv st \<Longrightarrow> distinct (map (\<lambda>r. {from_user_id r, to_user_id r}) (requests st))"
  unfolding friends_inv_def by blast

lemma friends_inv_start: "friends_inv no_friends"
  by (simp add: friends_inv_def no_friends_def)

lemma send_request_inv:
  assumes "friends_inv st" and "send_request a b st = Inr (st', rid)"
  shows "friends_inv st'"
proof -
  let ?r = "\<lparr>request_id = next_request_id st, from_user_id = a, to_user_id = b, status = Pending\<rparr>"
  from assms(2) have ab: "a \<noteq> b" and nf: "b \<notin> friends_of st a"
    and np: "\<not> pending_between (requests st) a b"
    and st': "st' = st\<lparr>requests := requests st @ [?r], next_request_id := Suc (next_request_id st)\<rparr>"
    by (auto simp: send_request_def split: if_splits)
  from friends_inv_request [OF assms(1)]
  have pend: "\<forall>r \<in> set (requests st). status r = Pending"
    by blast
  with np have "\<forall>r \<in> set (requests st). {from_user_id r, to_user_id r} \<noteq> {a, b}"
    by (auto simp: pending_between_def list_ex_iff between_key)
  then have "{a, b} \<notin> (\<lambda>r. {from_user_id r, to_user_id r}) ` set (requests st)"
    by auto
  then have 4: "distinct (map (\<lambda>r. {from_user_id r, to_user_id r}) (requests st'))"
    using friends_inv_distinct [OF assms(1)] by (simp add: st')
  have 1: "\<forall>x y. y \<in> friends_of st' x \<longleftrightarrow> x \<in> friends_of st' y"
    using friends_inv_sym [OF assms(1)] by (simp add: st')
  have 2: "\<forall>x. x \<notin> friends_of st' x"
    using friends_inv_irrefl [OF assms(1)] by (simp add: st')
  have 3: "\<forall>q \<in> set (requests st'). status q = Pending \<and> from_user_id q \<noteq> to_user_id q \<and>
         to_user_id q \<notin> friends_of st' (from_user_id q)"
    using friends_inv_request [OF assms(1)] ab nf by (auto simp: st')
  from 1 2 3 4 show ?thesis unfolding friends_inv_def by blast
qed

lemma accept_request_facts:
  assumes "accept_request rid u st = Inr (st', a, b)"
  obtains r where "r \<in> set (requests st)" "request_id r = rid" "status r = Pending"
    "from_user_id r = a" "to_user_id r = b"
    "st' = st\<lparr>friends_of := (friends_of st)
                 (a := insert b (friends_of st a), b := insert a (friends_of st b)),
               requests := filter (\<lambda>q. request_id q \<noteq> rid) (requests st)\<rparr>"
proof -
  from assms obtain r where f: "find (\<lambda>r. request_id r = rid) (requests st) = Some r"
    by (auto simp: accept_request_def split: option.splits)
  then have "r \<in> set (requests st)" "request_id r = rid"
    by (auto simp: find_Some_iff)
  moreover from assms f have "status r = Pending" "from_user_id r = a" "to_user_id r = b"
    "st' = st\<lparr>friends_of := (friends_of st)
                 (a := insert b (friends_of st a), b := insert a (friends_of st b)),
               requests := filter (\<lambda>q. request_id q \<noteq> rid) (requests st)\<rparr>"
    by (auto simp: accept_request_def Let_def split: if_splits)
  ultimately show thesis using that by blast
qed

text \<open>No request that survives an acceptance is between the two new friends.\<close>

lemma accept_request_others:
  assumes inv: "friends_inv st" and acc: "accept_request rid u st = Inr (st', a, b)"
    and q: "q \<in> set (requests st')"
  shows "\<not> between q a b"
proof -
  from acc obtain r where r: "r \<in> set (requests st)" "request_id r = rid"
    "from_user_id r = a" "to_user_id r = b"
    and st': "requests st' = filter (\<lambda>q. request_id q \<noteq> rid) (requests st)"
    by (rule accept_request_facts) simp
  from q st' have qs: "q \<in> set (requests st)" and "request_id q \<noteq> rid" by auto
  with r have "q \<noteq> r" by auto
  moreover from friends_inv_distinct [OF inv]
  have "inj_on (\<lambda>r. {from_user_id r, to_user_id r}) (set (requests st))"
    by (simp add: distinct_map)
  ultimately have "{from_user_id q, to_user_id q} \<noteq> {from_user_id r, to_user_id r}"
    using qs r(1) by (auto dest: inj_onD)
  with r show ?thesis by (simp add: between_key)
qed

lemma accept_request_inv:
  assumes inv: "friends_inv st" and acc: "accept_request rid u st = Inr (st', p)"
  shows "friends_inv st'"
proof -
  obtain a b where p: "p = (a, b)" by (cases p)
  from acc [unfolded p] obtain r where r: "r \<in> set (requests st)" "from_user_id r = a" "to_user_id r = b"
    and st': "st' = st\<lparr>friends_of := (friends_of st)
                 (a := insert b (friends_of st a), b := insert a (friends_of st b)),
               requests := filter (\<lambda>q. request_id q \<noteq> rid) (requests st)\<rparr>"
    by (rule accept_request_facts)
  from friends_inv_request [OF inv r(1)] r have ab: "a \<noteq> b" by simp
  note sym = friends_inv_sym [OF inv] and irr = friends_inv_irrefl [OF inv]
    and reqs = friends_inv_request [OF inv] and dist = friends_inv_distinct [OF inv]
  have 1: "\<forall>x y. y \<in> friends_of st' x \<longleftrightarrow> x \<in> friends_of st' y"
    using sym ab unfolding st' by (simp add: fun_upd_def)
  have 2: "\<forall>x. x \<notin> friends_of st' x"
    using irr ab by (auto simp: st')
  have 3: "status q = Pending \<and> from_user_id q \<noteq> to_user_id q \<and>
         to_user_id q \<notin> friends_of st' (from_user_id q)" if "q \<in> set (requests st')" for q
  proof -
    from that have "q \<in> set (requests st)" by (simp add: st')
    moreover from inv acc that have "\<not> between q a b"
      unfolding p by (rule accept_request_others)
    ultimately show ?thesis using reqs [of q]
      by (auto simp: st' between_def)
  qed
  have 4: "distinct (map (\<lambda>r. {from_user_id r, to_user_id r}) (requests st'))"
    using dist by (simp add: st' distinct_map_filter)
  from 1 2 3 4 show ?thesis unfolding friends_inv_def by blast
qed

lemma reachable_inv: "reachable st \<Longrightarrow> friends_inv st"
  by (induction rule: reachable.induct)
     (auto intro: friends_inv_start send_request_inv accept_request_inv)

text \<open>
  Claim C1. In every state the server can reach, a successful
  \<^verbatim>\<open>accept_request\<close> leaves the friend sets symmetric for all users \<open>A\<close> and \<open>B\<close>,
  makes the two users of the request friends of each other, leaves no pending request
  between them (nor between any two friends), and deletes the accepted request.
\<close>

theorem accept_request_symmetric:
  assumes "reachable st" and "accept_request rid u st = Inr (st', a, b)"
  shows "(\<forall>A B. B \<in> friends_of st' A \<longleftrightarrow> A \<in> friends_of st' B) \<and>
         b \<in> friends_of st' a \<and> a \<in> friends_of st' b \<and>
         \<not> pending_between (requests st') a b \<and>
         (\<forall>A B. B \<in> friends_of st' A \<longrightarrow> \<not> pending_between (requests st') A B) \<and>
         find (\<lambda>q. request_id q = rid) (requests st') = None"
proof -
  from assms(1) have inv: "friends_inv st" by (rule reachable_inv)
  then have inv': "friends_inv st'" using assms(2) by (rule accept_request_inv)
  from assms(2) obtain r where
    st': "st' = st\<lparr>friends_of := (friends_of st)
                 (a := insert b (friends_of st a), b := insert a (friends_of st b)),
               requests := filter (\<lambda>q. request_id q \<noteq> rid) (requests st)\<rparr>"
    by (rule accept_request_facts)
  have sym: "\<forall>A B. B \<in> friends_of st' A \<longleftrightarrow> A \<in> friends_of st' B"
    using friends_inv_sym [OF inv'] by blast
  have fr: "b \<in> friends_of st' a \<and> a \<in> friends_of st' b"
    by (simp add: st')
  have np: "\<not> pending_between (requests st') a b"
    using accept_request_others [OF inv assms(2)]
    by (auto simp: pending_between_def list_ex_iff)
  have all: "\<not> pending_between (requests st') A B" if "B \<in> friends_of st' A" for A B
  proof
    assume "pending_between (requests st') A B"
    then obtain q where q: "q \<in> set (requests st')" "between q A B"
      by (auto simp: pending_between_def list_ex_iff)
    with friends_inv_request [OF inv']
    have "to_user_id q \<notin> friends_of st' (from_user_id q)"
      by blast
    with q(2) that sym show False unfolding between_def by blast
  qed
  have gone: "find (\<lambda>q. request_id q = rid) (requests st') = None"
    by (simp add: st' find_None_iff)
  from sym fr np all gone show ?thesis by blast
qed

theorem accept_request_symmetric_witness:
  "reachable one_request \<and> accept_request 0 2 one_request = Inr (one_friendship, 1, 2) \<and>
   2 \<in> friends_of one_friendship 1 \<and> 1 \<in> friends_of one_friendship 2 \<and>
   \<not> pending_between (requests one_friendship) 1 2 \<and>
   find (\<lambda>q. request_id q = 0) (requests one_friendship) = None"
proof -
  have s: "send_request 1 2 no_friends = Inr (one_request, 0)"
    by (simp add: send_request_def no_friends_def one_request_def pending_between_def)
  have r: "reachable one_request"
    by (rule reachable.sent [OF reachable.start s])
  have a: "accept_request 0 2 one_request = Inr (one_friendship, 1, 2)"
    by (simp add: accept_request_def one_request_def one_friendship_def)
  from accept_request_symmetric [OF r a] r a show ?thesis by simp
qed

section \<open>Rating aggregation: one rating per user and spot\<close>

lemma find_update_spot:
  "find (\<lambda>x. sid x = i) sps = Some sp \<Longrightarrow> (\<And>x. sid (f x) = sid x) \<Longrightarrow>
   find (\<lambda>x. sid x = i) (update_spot i f sps) = Some (f sp)"
  by (induction sps) (auto simp: update_spot_def)

lemma sid_update_spot: "(\<And>x. sid (f x) = sid x) \<Longrightarrow> map sid (update_spot i f sps) = map sid sps"
  by (induction sps) (auto simp: update_spot_def)

lemma find_rating_unique:
  "distinct (map (\<lambda>r. (rating_spot_id r, rating_user_id r)) rs) \<Longrightarrow>
   find (rating_of i u) rs = Some old \<Longrightarrow> filter (rating_of i u) rs = [old]"
proof (induction rs)
  case Nil
  then show ?case by simp
next
  case (Cons r rs)
  show ?case
  proof (cases "rating_of i u r")
    case True
    with Cons.prems have "r = old" and "\<forall>q \<in> set rs. \<not> rating_of i u q"
      by (auto simp: rating_of_def rev_image_eqI)
    with True show ?thesis by (simp add: filter_empty_conv)
  next
    case False
    with Cons show ?thesis by simp
  qed
qed

lemma revalue_key [simp]:
  "rating_spot_id (revalue i u v r) = rating_spot_id r"
  "rating_user_id (revalue i u v r) = rating_user_id r"
  by (simp_all add: revalue_def)

lemma ratings_on_revalue:
  "ratings_on j (map (revalue i u v) rs) = map (revalue i u v) (ratings_on j rs)"
  by (induction rs) (simp_all add: ratings_on_def)

lemma ratings_on_other:
  "j \<noteq> i \<Longrightarrow> map (revalue i u v) (ratings_on j rs) = ratings_on j rs"
  by (induction rs) (auto simp: ratings_on_def revalue_def rating_of_def)

lemma sum_revalue:
  "distinct (map (\<lambda>r. (rating_spot_id r, rating_user_id r)) rs) \<Longrightarrow>
   find (rating_of i u) rs = Some old \<Longrightarrow>
   sum_list (map rating_value (map (revalue i u v) (ratings_on i rs))) =
   sum_list (map rating_value (ratings_on i rs)) + (v - rating_value old)"
proof (induction rs)
  case Nil
  then show ?case by simp
next
  case (Cons r rs)
  show ?case
  proof (cases "rating_of i u r")
    case True
    with Cons.prems have old: "r = old" and "\<forall>q \<in> set rs. \<not> rating_of i u q"
      by (auto simp: rating_of_def rev_image_eqI)
    then have "map (revalue i u v) (ratings_on i rs) = ratings_on i rs"
      by (auto intro!: map_idI simp: ratings_on_def revalue_def)
    moreover from True have "ratings_on i (r # rs) = r # ratings_on i rs"
      and "rating_value (revalue i u v r) = v"
      by (simp_all add: ratings_on_def revalue_def rating_of_def)
    ultimately show ?thesis using old by simp
  next
    case False
    with Cons show ?thesis
      by (auto simp: ratings_on_def revalue_def)
  qed
qed

lemma find_rating_on:
  "find (rating_of i u) rs = Some old \<Longrightarrow> old \<in> set (ratings_on i rs)"
  by (auto simp: find_Some_iff ratings_on_def rating_of_def)

lemma submit_rating_replace:
  assumes inv: "store_inv st" and sp: "find (\<lambda>sp. sid sp = i) (store_spots st) = Some sp"
    and v: "1 \<le> v" "v \<le> 5" and old: "find (rating_of i u) (store_ratings st) = Some old"
  defines "f \<equiv> \<lambda>x. x\<lparr>rating_sum := rating_sum x + (v - rating_value old)\<rparr>"
  defines "st' \<equiv> st\<lparr>store_spots := update_spot i f (store_spots st),
                     store_ratings := map (revalue i u v) (store_ratings st)\<rparr>"
  shows "submit_rating i (Some u) v st = Inr (st', average (f sp))"
    and "store_inv st'"
    and "filter (rating_of i u) (store_ratings st') =
           [\<lparr>rating_spot_id = i, rating_user_id = u, rating_value = v\<rparr>]"
    and "0 < rating_count sp"
proof -
  show "submit_rating i (Some u) v st = Inr (st', average (f sp))"
    using sp v old by (simp add: submit_rating_def st'_def f_def Let_def)
  from inv have d1: "distinct (map sid (store_spots st))"
    and d2: "distinct (map (\<lambda>r. (rating_spot_id r, rating_user_id r)) (store_ratings st))"
    and agg: "\<And>x. x \<in> set (store_spots st) \<Longrightarrow>
        rating_count x = length (ratings_on (sid x) (store_ratings st)) \<and>
        rating_sum x = sum_list (map rating_value (ratings_on (sid x) (store_ratings st)))"
    by (auto simp: store_inv_def)
  have fsid: "\<And>x. sid (f x) = sid x" by (simp add: f_def)
  have k: "map (\<lambda>r. (rating_spot_id r, rating_user_id r)) (map (revalue i u v) (store_ratings st))
      = map (\<lambda>r. (rating_spot_id r, rating_user_id r)) (store_ratings st)"
    by simp
  have a: "rating_count y = length (ratings_on (sid y) (store_ratings st')) \<and>
        rating_sum y = sum_list (map rating_value (ratings_on (sid y) (store_ratings st')))"
    if "y \<in> set (store_spots st')" for y
  proof -
    from that obtain x where x: "x \<in> set (store_spots st)"
      and y: "y = (if sid x = i then f x else x)"
      by (auto simp: st'_def update_spot_def)
    show ?thesis
    proof (cases "sid x = i")
      case True
      with y agg [OF x] sum_revalue [OF d2 old, of v] show ?thesis
        by (simp add: st'_def ratings_on_revalue f_def)
    next
      case False
      with y agg [OF x] show ?thesis
        by (simp add: st'_def ratings_on_revalue ratings_on_other)
    qed
  qed
  show "store_inv st'"
    unfolding store_inv_def
  proof (intro conjI ballI)
    show "distinct (map sid (store_spots st'))"
      using d1 fsid by (simp add: st'_def sid_update_spot)
    show "distinct (map (\<lambda>r. (rating_spot_id r, rating_user_id r)) (store_ratings st'))"
      using d2 by (simp add: st'_def comp_def)
  qed (use a in auto)
  from find_rating_unique [OF d2 old]
  have "filter (rating_of i u) (store_ratings st) = [old]" .
  moreover have "filter (rating_of i u) (map (revalue i u v) rs) =
      map (revalue i u v) (filter (rating_of i u) rs)" for rs
    by (induction rs) (auto simp: rating_of_def)
  moreover from old have "rating_of i u old"
    by (auto simp: find_Some_iff)
  ultimately show "filter (rating_of i u) (store_ratings st') =
           [\<lparr>rating_spot_id = i, rating_user_id = u, rating_value = v\<rparr>]"
    by (simp add: st'_def revalue_def rating_of_def)
  from sp have "sp \<in> set (store_spots st)" "sid sp = i"
    by (auto simp: find_Some_iff)
  with agg [of sp] find_rating_on [OF old] show "0 < rating_count sp"
    by (auto simp: length_greater_0_conv)
qed

lemma submit_rating_insert:
  assumes inv: "store_inv st" and sp: "find (\<lambda>sp. sid sp = i) (store_spots st) = Some sp"
    and v: "1 \<le> v" "v \<le> 5" and old: "find (rating_of i u) (store_ratings st) = None"
  defines "f \<equiv> \<lambda>x. x\<lparr>rating_sum := rating_sum x + v, rating_count := rating_count x + 1\<rparr>"
  defines "st' \<equiv> st\<lparr>store_spots := update_spot i f (store_spots st),
                     store_ratings := store_ratings st @
                       [\<lparr>rating_spot_id = i, rating_user_id = u, rating_value = v\<rparr>]\<rparr>"
  shows "submit_rating i (Some u) v st = Inr (st', average (f sp))"
    and "store_inv st'"
    and "filter (rating_of i u) (store_ratings st') =
           [\<lparr>rating_spot_id = i, rating_user_id = u, rating_value = v\<rparr>]"
proof -
  show "submit_rating i (Some u) v st = Inr (st', average (f sp))"
    using sp v old by (simp add: submit_rating_def st'_def f_def Let_def)
  from inv have d1: "distinct (map sid (store_spots st))"
    and d2: "distinct (map (\<lambda>r. (rating_spot_id r, rating_user_id r)) (store_ratings st))"
    and agg: "\<And>x. x \<in> set (store_spots st) \<Longrightarrow>
        rating_count x = length (ratings_on (sid x) (store_ratings st)) \<and>
        rating_sum x = sum_list (map rating_value (ratings_on (sid x) (store_ratings st)))"
    by (auto simp: store_inv_def)
  from old have none: "\<And>r. r \<in> set (store_ratings st) \<Longrightarrow> \<not> rating_of i u r"
    by (auto simp: find_None_iff)
  have fsid: "\<And>x. sid (f x) = sid x" by (simp add: f_def)
  have a: "rating_count y = length (ratings_on (sid y) (store_ratings st')) \<and>
        rating_sum y = sum_list (map rating_value (ratings_on (sid y) (store_ratings st')))"
    if "y \<in> set (store_spots st')" for y
  proof -
    from that obtain x where x: "x \<in> set (store_spots st)"
      and y: "y = (if sid x = i then f x else x)"
      by (auto simp: st'_def update_spot_def)
    with agg [OF x] show ?thesis
      by (auto simp: st'_def ratings_on_def f_def)
  qed
  show "store_inv st'"
    unfolding store_inv_def
  proof (intro conjI ballI)
    show "distinct (map sid (store_spots st'))"
      using d1 fsid by (simp add: st'_def sid_update_spot)
    show "distinct (map (\<lambda>r. (rating_spot_id r, rating_user_id r)) (store_ratings st'))"
      using d2 none by (auto simp: st'_def rating_of_def)
  qed (use a in auto)
  from none have "filter (rating_of i u) (store_ratings st) = []"
    by (simp add: filter_empty_conv)
  then show "filter (rating_of i u) (store_ratings st') =
           [\<lparr>rating_spot_id = i, rating_user_id = u, rating_value = v\<rparr>]"
    by (simp add: st'_def rating_of_def)
qed


text \<open>
  Claim C2. For a value from 1 to 5 submitted by an authenticated user on an existing
  spot of a consistent store, \<^verbatim>\<open>submit_rating\<close> succeeds; without a prior rating of
  the user it adds the value to \<open>rating_sum\<close> and one to \<open>rating_count\<close>, with a prior
  rating it changes \<open>rating_sum\<close> by the difference and keeps \<open>rating_count\<close>. The
  store stays consistent, the user has exactly one rating on the spot afterwards, and
  the returned average is \<open>rating_sum / rating_count\<close> of the updated spot, whose count
  is positive.
\<close>

theorem submit_rating_aggregate:
  assumes "store_inv st" and "find (\<lambda>x. sid x = i) (store_spots st) = Some sp"
    and "1 \<le> v" and "v \<le> 5"
  shows "\<exists>st' sp'. submit_rating i (Some u) v st = Inr (st', average sp') \<and>
           find (\<lambda>x. sid x = i) (store_spots st') = Some sp' \<and>
           (case find (rating_of i u) (store_ratings st) of
              None \<Rightarrow> rating_sum sp' = rating_sum sp + v \<and>
                      rating_count sp' = rating_count sp + 1
            | Some old \<Rightarrow> rating_sum sp' = rating_sum sp + (v - rating_value old) \<and>
                          rating_count sp' = rating_count sp) \<and>
           0 < rating_count sp' \<and>
           average sp' = of_int (rating_sum sp') / of_nat (rating_count sp') \<and>
           store_inv st' \<and>
           filter (rating_of i u) (store_ratings st') =
             [\<lparr>rating_spot_id = i, rating_user_id = u, rating_value = v\<rparr>]"
proof (cases "find (rating_of i u) (store_ratings st)")
  case None
  let ?f = "\<lambda>x. x\<lparr>rating_sum := rating_sum x + v, rating_count := rating_count x + 1\<rparr>"
  let ?st = "st\<lparr>store_spots := update_spot i ?f (store_spots st),
                 store_ratings := store_ratings st @
                   [\<lparr>rating_spot_id = i, rating_user_id = u, rating_value = v\<rparr>]\<rparr>"
  note r = submit_rating_insert [OF assms None]
  have "find (\<lambda>x. sid x = i) (store_spots ?st) = Some (?f sp)"
    using find_update_spot [OF assms(2), of ?f] by simp
  with r None show ?thesis
    by (intro exI [of _ ?st] exI [of _ "?f sp"]) (simp add: average_def)
next
  case (Some old)
  let ?f = "\<lambda>x. x\<lparr>rating_sum := rating_sum x + (v - rating_value old)\<rparr>"
  let ?st = "st\<lparr>store_spots := update_spot i ?f (store_spots st),
                 store_ratings := map (revalue i u v) (store_ratings st)\<rparr>"
  note r = submit_rating_replace [OF assms Some]
  have "find (\<lambda>x. sid x = i) (store_spots ?st) = Some (?f sp)"
    using find_update_spot [OF assms(2), of ?f] by simp
  with r Some show ?thesis
    by (intro exI [of _ ?st] exI [of _ "?f sp"]) (simp add: average_def)
qed

theorem submit_rating_aggregate_witness:
  "store_inv rated_once \<and>
   find (\<lambda>x. sid x = 1) (store_spots rated_once) =
     Some \<lparr>sid = 1, owner_id = Some 3, rating_sum = 4, rating_count = 1\<rparr> \<and>
   submit_rating 1 (Some 7) 2 rated_once = Inr (rated_again, 2) \<and>
   store_inv rated_again \<and>
   filter (rating_of 1 7) (store_ratings rated_again) =
     [\<lparr>rating_spot_id = 1, rating_user_id = 7, rating_value = 2\<rparr>]"
proof -
  have i: "store_inv rated_once"
    by (simp add: store_inv_def rated_once_def ratings_on_def)
  have f: "find (\<lambda>x. sid x = 1) (store_spots rated_once) =
      Some \<lparr>sid = 1, owner_id = Some 3, rating_sum = 4, rating_count = 1\<rparr>"
    by (simp add: rated_once_def)
  have s: "submit_rating 1 (Some 7) 2 rated_once = Inr (rated_again, 2)"
    by (simp add: submit_rating_def rated_once_def rated_again_def rating_of_def
        revalue_def update_spot_def average_def)
  from submit_rating_aggregate [OF i f, of 2 7] s i f show ?thesis
    by auto
qed

section \<open>The client\<close>

text \<open>
  Claim C3. For a query of length 0 or 1, \<^verbatim>\<open>searchUsers\<close> sends nothing and sets
  the search results to the empty list; for a query of length at least 2 it sends
  \<^verbatim>\<open>GET /users/search?q=<query>\<close>, and the data of the response become the
  search results (a failed request leaves the state as it is).
\<close>

theorem searchUsers_min_length:
  "(length query < 2 \<longrightarrow>
      http_log (searchUsers_request query s) = http_log s \<and>
      pending (searchUsers_request query s) = pending s \<and>
      searchResults (searchUsers_request query s) = []) \<and>
   (2 \<le> length query \<longrightarrow>
      http_log (searchUsers_request query s) =
        http_log s @ [(GET (''/users/search?q='' @ query), auth_header s)] \<and>
      pending (searchUsers_request query s) = pending s @ [GET (''/users/search?q='' @ query)]) \<and>
   searchResults (searchUsers_settle (Resolved d) s) = d \<and>
   searchUsers_settle (Rejected st det) s = s"
  by (auto simp: searchUsers_request_def searchUsers_settle_def issue_def)

theorem searchUsers_min_length_witness:
  "length ''a'' < 2 \<and> http_log (searchUsers_request ''a'' browsing) = [] \<and>
   searchResults (searchUsers_request ''a'' browsing) = [] \<and>
   2 \<le> length ''al'' \<and>
   http_log (searchUsers_request ''al'' browsing) =
     [(GET ''/users/search?q=al'', Some ''Bearer tok'')]"
  using searchUsers_min_length [of "''a''" browsing]
    searchUsers_min_length [of "''al''" browsing]
  by (simp add: browsing_def initial_def)

text \<open>
  Claim C4. While no user is logged in, \<^verbatim>\<open>handleAddSpotClick\<close> and
  \<^verbatim>\<open>handleRateSpot\<close> only open the authentication modal: the state is otherwise
  unchanged, nothing is sent and nothing is left pending.
\<close>

theorem unauthenticated_actions_open_modal:
  assumes "user s = None"
  shows "handleAddSpotClick s = s\<lparr>showAuthModal := True\<rparr> \<and>
         handleRateSpot_request spotId rating s = s\<lparr>showAuthModal := True\<rparr> \<and>
         http_log (handleAddSpotClick s) = http_log s \<and>
         pending (handleAddSpotClick s) = pending s \<and>
         http_log (handleRateSpot_request spotId rating s) = http_log s \<and>
         pending (handleRateSpot_request spotId rating s) = pending s"
  using assms by (simp add: handleAddSpotClick_def handleRateSpot_request_def)

theorem unauthenticated_actions_open_modal_witness:
  "user (initial None) = None \<and>
   showAuthModal (handleAddSpotClick (initial None)) \<and>
   showAuthModal (handleRateSpot_request ''s1'' 5 (initial None)) \<and>
   http_log (handleAddSpotClick (initial None)) = [] \<and>
   http_log (handleRateSpot_request ''s1'' 5 (initial None)) = []"
proof -
  have u: "user (initial None) = None" by (simp add: initial_def)
  from unauthenticated_actions_open_modal [OF u, of "''s1''" 5] u show ?thesis
    by (simp add: initial_def)
qed

text \<open>
  Claim C5. The star buttons of both versions of the client carry exactly the values
  1 to 5, and a click hands the value of its button to \<^verbatim>\<open>handleRateSpot\<close>, which
  posts it as it is; the server does not answer such a value with \<open>InvalidValue\<close>.
\<close>

theorem star_values_in_range:
  "set stars = {1..5} \<and> set StarRating_values = {1..5} \<and>
   (star_click index s = Some s' \<longrightarrow>
      (\<exists>sp. selectedSpot s = Some sp \<and> 1 \<le> stars ! index \<and> stars ! index \<le> 5 \<and>
         s' = issue (POST (''/spots/'' @ spot_id sp @ ''/rate'') (RateBody (stars ! index))) s)) \<and>
   (StarRating_click readOnly has_onRate index = Some v \<longrightarrow> 1 \<le> v \<and> v \<le> 5) \<and>
   (w \<in> set stars \<union> set StarRating_values \<longrightarrow> submit_rating i caller w st \<noteq> Inl InvalidValue)"
proof -
  have a: "set stars = {1..5}"
    by (auto simp: stars_def)
  have b: "set StarRating_values = {1..5}"
  proof -
    have "[0..<5] = [0, 1, 2, 3, 4]" by (simp add: upt_rec)
    then show ?thesis by (auto simp: StarRating_values_def)
  qed
  have c: "\<exists>sp. selectedSpot s = Some sp \<and> 1 \<le> stars ! index \<and> stars ! index \<le> 5 \<and>
         s' = issue (POST (''/spots/'' @ spot_id sp @ ''/rate'') (RateBody (stars ! index))) s"
    if h: "star_click index s = Some s'"
  proof -
    from h obtain sp where sp: "selectedSpot s = Some sp" and u: "user s \<noteq> None"
      and i: "index < length stars"
      and s': "s' = handleRateSpot_request (spot_id sp) (stars ! index) s"
      by (auto simp: star_click_def split: option.splits if_splits)
    from i have "stars ! index \<in> set stars" by simp
    with a have "1 \<le> stars ! index \<and> stars ! index \<le> 5" by simp
    moreover from u s' have
      "s' = issue (POST (''/spots/'' @ spot_id sp @ ''/rate'') (RateBody (stars ! index))) s"
      by (auto simp: handleRateSpot_request_def)
    ultimately show ?thesis using sp by blast
  qed
  have d: "1 \<le> v \<and> v \<le> 5" if h: "StarRating_click readOnly has_onRate index = Some v"
  proof -
    from h have "v \<in> set StarRating_values"
      by (auto simp: StarRating_click_def split: if_splits)
    with b show ?thesis by simp
  qed
  have e: "submit_rating i caller w st \<noteq> Inl InvalidValue"
    if "w \<in> set stars \<union> set StarRating_values"
  proof -
    from that a b have "1 \<le> w \<and> w \<le> 5" by auto
    then show ?thesis
      by (auto simp: submit_rating_def Let_def split: option.splits)
  qed
  from a b c d e show ?thesis by blast
qed

theorem star_values_in_range_witness:
  "star_click 2 browsing =
     Some (issue (POST ''/spots/s1/rate'' (RateBody 3)) browsing) \<and>
   StarRating_click False True 4 = Some 5 \<and>
   3 \<in> set stars \<union> set StarRating_values \<and>
   submit_rating 1 (Some 7) 3 rated_once \<noteq> Inl InvalidValue"
proof -
  have a: "star_click 2 browsing = Some (issue (POST ''/spots/s1/rate'' (RateBody 3)) browsing)"
    by (simp add: star_click_def browsing_def initial_def stars_def park_def alice_def
        handleRateSpot_request_def)
  have b: "StarRating_click False True 4 = Some 5"
    by (simp add: StarRating_click_def StarRating_values_def)
  have c: "3 \<in> set stars \<union> set StarRating_values"
    by (simp add: stars_def)
  from star_values_in_range [of 2 browsing "issue (POST ''/spots/s1/rate'' (RateBody 3)) browsing"
      False True 5 3 1 "Some 7" rated_once] a b c
  show ?thesis by simp
qed

text \<open>
  Claim C6. \<open>Global\<close> returns every spot, whoever asks; \<open>Own\<close> returns to a user
  exactly the spots the user owns; \<open>Friends\<close> returns exactly the spots whose owner is a
  friend of the user, which are none of the user's own spots since nobody is a friend of
  oneself. The client's footer names the view of the third filter
  \<^verbatim>\<open>Your + friends' spots\<close>.
\<close>

theorem get_spots_visibility:
  "get_spots requesting_user Global sps = Inr sps \<and>
   get_spots (Some A) Own sps = Inr (filter (\<lambda>sp. owner_id sp = Some (user_id A)) sps) \<and>
   (\<exists>res. get_spots (Some A) Friends sps = Inr res \<and>
      set res = {sp \<in> set sps. \<exists>w. owner_id sp = Some w \<and> w \<in> friend_ids A} \<and>
      (user_id A \<notin> friend_ids A \<longrightarrow> (\<forall>sp \<in> set res. owner_id sp \<noteq> Some (user_id A)))) \<and>
   footer_label ''friends'' = ''Your + friends' spots''"
  by (auto simp: get_spots_def footer_label_def split: option.splits)

theorem get_spots_visibility_witness:
  "get_spots None Global four_spots = Inr four_spots \<and>
   get_spots (Some user_one) Own four_spots =
     Inr [\<lparr>sid = 10, owner_id = Some 1, rating_sum = 0, rating_count = 0\<rparr>] \<and>
   get_spots (Some user_one) Friends four_spots =
     Inr [\<lparr>sid = 11, owner_id = Some 2, rating_sum = 0, rating_count = 0\<rparr>] \<and>
   user_id user_one \<notin> friend_ids user_one"
  using get_spots_visibility [of None four_spots user_one]
  by (simp add: get_spots_def four_spots_def user_one_def)

text \<open>
  Claim C7. A successful login or registration, in both versions of the client, sets the
  default \<^verbatim>\<open>Authorization\<close> header of the shared axios instance to \<^verbatim>\<open>Bearer \<close>
  followed by the access token and stores the token in \<^verbatim>\<open>localStorage\<close>; logging
  out deletes the header and the stored token and sets token and user to null.
\<close>

theorem login_sets_bearer_header:
  "(let s' = handleLogin_settle (Resolved d) s in
      auth_header s' = Some (''Bearer '' @ access_token d) \<and>
      localStorage_token s' = Some (access_token d)) \<and>
   (let s' = handleRegister_settle (Resolved d) s in
      auth_header s' = Some (''Bearer '' @ access_token d) \<and>
      localStorage_token s' = Some (access_token d)) \<and>
   (let p' = fst (login_settle (Resolved d) p) in
      p_auth_header p' = Some (''Bearer '' @ access_token d) \<and>
      p_localStorage_token p' = Some (access_token d)) \<and>
   (let p' = fst (register_settle (Resolved d) p) in
      p_auth_header p' = Some (''Bearer '' @ access_token d) \<and>
      p_localStorage_token p' = Some (access_token d)) \<and>
   (let s' = handleLogout s in
      auth_header s' = None \<and> localStorage_token s' = None \<and> token s' = None \<and> user s' = None) \<and>
   (let p' = logout p in
      p_auth_header p' = None \<and> p_localStorage_token p' = None \<and> p_token p' = None \<and>
      p_user p' = None)"
  by (simp add: handleLogin_settle_def handleRegister_settle_def login_settle_def
      register_settle_def handleLogout_def logout_def alert_def toast_def)

text \<open>
  Claim C8, at the events \<open>forced_logout\<close>: the profile request that follows a login
  fails after the user has chosen the filter of her own spots. The client is then logged
  out with \<open>mapFilter\<close> still \<^verbatim>\<open>own\<close>, and the last request it has sent is
  \<^verbatim>\<open>GET /spots?filter_type=own\<close> without an \<^verbatim>\<open>Authorization\<close> header;
  \<^verbatim>\<open>handleLogout\<close>, in contrast, resets the filter.
\<close>

theorem forced_logout_keeps_filter:
  "map_option (\<lambda>s. (user s, token s, mapFilter s, last (http_log s)))
     (run forced_logout (mount True None)) =
     Some (None, None, ''own'', (GET ''/spots?filter_type=own'', None)) \<and>
   mapFilter (handleLogout s) = ''global''"
  by (simp add: forced_logout_def alice_def mount_def initial_def token_effect_def
      map_effect_def spots_effect_def loadSpots_request_def issue_def step_def on_event_def
      effects_def settled_def is_login_def handleLogin_request_def handleLogin_settle_def
      alert_def empty_auth_form_def fetchUserProfile_request_def fetchUserProfile_settle_def
      handleLogout_def)

lemma effects_auth:
  "token s' = None \<Longrightarrow> auth_header s' = None \<Longrightarrow>
   user (effects s s') = user s' \<and> token (effects s s') = None \<and>
   auth_header (effects s s') = None \<and> localStorage_token (effects s s') = localStorage_token s'"
  by (simp add: effects_def token_effect_def spots_effect_def loadSpots_request_def issue_def Let_def)

text \<open>
  Claim C9. When the request of \<^verbatim>\<open>fetchUserProfile\<close> fails, both versions of the
  client remove the token from \<^verbatim>\<open>localStorage\<close>, set token and user to null and
  delete the \<^verbatim>\<open>Authorization\<close> header; the effects that follow do not change this.
\<close>

theorem fetchUserProfile_failure_logs_out:
  "(let s' = fetchUserProfile_settle (Rejected st det) s in
      localStorage_token s' = None \<and> token s' = None \<and> user s' = None \<and> auth_header s' = None) \<and>
   (let p' = p_fetchUserProfile_settle (Rejected st det) p in
      p_localStorage_token p' = None \<and> p_token p' = None \<and> p_user p' = None \<and>
      p_auth_header p' = None) \<and>
   (step (ProfileResponse (Rejected st det)) s = Some s'' \<longrightarrow>
      localStorage_token s'' = None \<and> token s'' = None \<and> user s'' = None \<and>
      auth_header s'' = None)"
proof -
  have a: "localStorage_token (fetchUserProfile_settle (Rejected st det) t) = None \<and>
        token (fetchUserProfile_settle (Rejected st det) t) = None \<and>
        user (fetchUserProfile_settle (Rejected st det) t) = None \<and>
        auth_header (fetchUserProfile_settle (Rejected st det) t) = None" for t
    by (simp add: fetchUserProfile_settle_def)
  have b: "p_localStorage_token (p_fetchUserProfile_settle (Rejected st det) p) = None \<and>
        p_token (p_fetchUserProfile_settle (Rejected st det) p) = None \<and>
        p_user (p_fetchUserProfile_settle (Rejected st det) p) = None \<and>
        p_auth_header (p_fetchUserProfile_settle (Rejected st det) p) = None"
    by (simp add: p_fetchUserProfile_settle_def logout_def toast_def)
  have c: "localStorage_token s'' = None \<and> token s'' = None \<and> user s'' = None \<and>
      auth_header s'' = None" if "step (ProfileResponse (Rejected st det)) s = Some s''"
  proof -
    from that obtain t where "s'' = effects s (fetchUserProfile_settle (Rejected st det) t)"
      by (auto simp: step_def on_event_def)
    then show ?thesis
      using a [of t] effects_auth [of "fetchUserProfile_settle (Rejected st det) t" s]
      by simp
  qed
  show ?thesis using a [of s] b c by (simp add: Let_def)
qed

theorem fetchUserProfile_failure_logs_out_witness:
  "\<exists>s''. step (ProfileResponse (Rejected (Some 401) None)) (mount True (Some ''old'')) = Some s'' \<and>
     localStorage_token s'' = None \<and> token s'' = None \<and> user s'' = None \<and>
     auth_header s'' = None"
proof -
  obtain s'' where
    s: "step (ProfileResponse (Rejected (Some 401) None)) (mount True (Some ''old'')) = Some s''"
    by (simp add: step_def on_event_def settled_def mount_def initial_def token_effect_def
        map_effect_def spots_effect_def fetchUserProfile_request_def loadSpots_request_def
        issue_def)
  from fetchUserProfile_failure_logs_out [of "Some 401" None "mount True (Some ''old'')" _ s''] s
  show ?thesis by blast
qed

text \<open>
  Claim C10. When the request of \<^verbatim>\<open>loadSpots\<close> fails, the spots become the empty
  list, whatever they were; when it succeeds, they become the data of the response. The
  request is \<^verbatim>\<open>GET /spots?filter_type=\<close> followed by the current filter.
\<close>

theorem loadSpots_failure_discards:
  "spots (loadSpots_settle (Rejected st det) s) = [] \<and>
   spots (loadSpots_settle (Resolved d) s) = d \<and>
   http_log (loadSpots_request s) =
     http_log s @ [(GET (''/spots?filter_type='' @ mapFilter s), auth_header s)]"
  by (simp add: loadSpots_settle_def loadSpots_request_def issue_def)

end
